theory Spec2Isabelle
  imports Main "HOL-Library.Sublist"
begin

section \<open>Data model of src/lib/twitch.ts\<close>

text \<open>
  The string-literal union \<^verbatim>\<open>TwitchEventType\<close> (lines 138--148). The function
  \<open>type_name\<close> gives the literal each constructor stands for; it is what the
  comparison \<^verbatim>\<open>sub.type === eventType\<close> reads.
\<close>

datatype TwitchEventType =
    Channel_follow
  | Channel_subscribe
  | Channel_channel_points_custom_reward_redemption_add
  | Channel_update
  | Channel_cheer
  | Channel_subscription_gift
  | Channel_raid
  | Channel_hype_train_begin
  | Channel_hype_train_progress
  | Channel_hype_train_end

fun type_name :: "TwitchEventType \<Rightarrow> string" where
  "type_name Channel_follow = ''channel.follow''"
| "type_name Channel_subscribe = ''channel.subscribe''"
| "type_name Channel_channel_points_custom_reward_redemption_add =
     ''channel.channel_points_custom_reward_redemption.add''"
| "type_name Channel_update = ''channel.update''"
| "type_name Channel_cheer = ''channel.cheer''"
| "type_name Channel_subscription_gift = ''channel.subscription.gift''"
| "type_name Channel_raid = ''channel.raid''"
| "type_name Channel_hype_train_begin = ''channel.hype_train.begin''"
| "type_name Channel_hype_train_progress = ''channel.hype_train.progress''"
| "type_name Channel_hype_train_end = ''channel.hype_train.end''"

text \<open>The status union of \<^verbatim>\<open>TwitchEventSubscription\<close> (lines 161--167).\<close>

datatype subscription_status =
    Enabled
  | Webhook_callback_verification_pending
  | Webhook_callback_verification_failed
  | Notification_failures_exceeded
  | Authorization_revoked
  | User_removed

text \<open>A condition is a JSON object with string values, kept as its key/value pairs.\<close>

type_synonym condition = "(string \<times> string) list"

text \<open>
  \<^verbatim>\<open>TwitchEventSubscription\<close> (lines 159--177); the nested \<^verbatim>\<open>transport\<close> object is
  flattened into two fields, \<^verbatim>\<open>cost\<close> is an integer count.
\<close>

record TwitchEventSubscription =
  sub_id :: string
  sub_status :: subscription_status
  sub_type :: string
  sub_version :: string
  sub_condition :: condition
  sub_created_at :: string
  sub_transport_method :: string
  sub_transport_callback :: string
  sub_cost :: int

text \<open>\<^verbatim>\<open>TwitchChatEvent\<close> (lines 12--18).\<close>

record TwitchChatEvent =
  chat_channel :: string
  chat_user :: string
  chat_message :: string
  chat_broadcaster :: bool
  chat_moderator :: bool

text \<open>
  The fields of \<^verbatim>\<open>TwitchChannelRedemptionEvent\<close> (lines 58--78) under \<^verbatim>\<open>event\<close>;
  \<^verbatim>\<open>event.reward.id\<close> is \<open>redemption_reward_id\<close>.
\<close>

record TwitchChannelRedemptionEvent =
  redemption_id :: string
  redemption_user_id :: string
  redemption_user_login :: string
  redemption_user_name :: string
  redemption_user_input :: string
  redemption_reward_id :: string
  redemption_reward_title :: string
  redemption_reward_cost :: int

text \<open>
  \<^verbatim>\<open>TwitchEvent\<close> (lines 150--157): the redemption variant carries its payload, the
  six other variants carry nothing that \<^verbatim>\<open>handleEvent\<close> reads.
\<close>

datatype TwitchEvent =
    ChannelFollowEvent
  | ChannelSubscribeEvent
  | ChannelRedemptionEvent TwitchChannelRedemptionEvent
  | ChannelUpdateEvent
  | ChannelCheerEvent
  | ChannelSubscriptionGiftEvent
  | ChannelRaidEvent

text \<open>
  Modelled from the spec: the \<^verbatim>\<open>Reward\<close> types are declared in \<^verbatim>\<open>./rewards\<close>, which is
  not among the sources. The spec gives a reward an id, a type out of shell,
  snap-filter and giveaway-entry, an optional scene and the type-specific optional
  fields (script path, filter key); \<^verbatim>\<open>redeem\<close>, \<^verbatim>\<open>redeemShell\<close> and
  \<^verbatim>\<open>redeemSnapFilter\<close> read exactly \<^verbatim>\<open>type\<close>, \<^verbatim>\<open>scene\<close>, \<^verbatim>\<open>script\<close> and \<^verbatim>\<open>key\<close>.
\<close>

datatype RewardType = Shell | Snap_filter | Giveaway_entry

record Reward =
  reward_id :: string
  reward_type :: RewardType
  reward_scene :: "string option"
  reward_script :: "string option"
  reward_key :: "string option"

text \<open>The private fields of \<^verbatim>\<open>TwitchController\<close> read from the process environment (lines 183--188).\<close>

record TwitchController =
  clientId :: string
  clientSecret :: string
  webhookSecret :: string
  callback :: string
  userId :: string
  username :: string

section \<open>Requests, effects and the environment\<close>

text \<open>The JSON body that \<^verbatim>\<open>createSubscription\<close> posts (lines 457--466).\<close>

record create_body =
  body_type :: TwitchEventType
  body_version :: string
  body_condition :: condition
  body_transport_method :: string
  body_transport_callback :: string
  body_transport_secret :: string

text \<open>
  The two HTTP requests of the reconciliation loop, each with the bearer token and the
  client id of its headers: the DELETE of lines 428--437 (with the id of its query string)
  and the POST of lines 469--480.
\<close>

datatype request =
    DELETE_subscription string string string
  | POST_subscription string string create_body

text \<open>
  What \<^verbatim>\<open>fetch\<close> can do: reject (a network failure), or resolve with a response of
  some status whose body either is not JSON (\<^verbatim>\<open>json()\<close> rejects) or parses, with the
  subscriptions of its \<^verbatim>\<open>data\<close> array.
\<close>

datatype http_response =
  Response (status: nat) (json: "TwitchEventSubscription list option")

datatype fetch_outcome = Rejected | Resolved http_response

text \<open>
  A call into a collaborator returns normally, throws before returning, or returns a
  promise that rejects.
\<close>

datatype outcome = Fulfils | Throws | Rejects

datatype error = FetchError | JsonError | TypeError | CollaboratorError

text \<open>Everything the controller does to the outside, in the order it does it.\<close>

datatype effect =
    Fetch request
  | ConsoleError error
  | Open string
  | ToggleSnapFilter string
  | HandleNewEntry string
  | SwitchScene string
  | SelectWinner
  | WsEmit string TwitchChatEvent

text \<open>
  The environment of one run. \<^verbatim>\<open>getToken\<close> (lines 345--372) and
  \<^verbatim>\<open>listSubscriptions\<close> (lines 395--416) are taken by their outcome: the promise
  rejects, or yields the token, respectively the \<^verbatim>\<open>data\<close> field of the listing
  (\<open>None\<close> when the body has none). \<open>fetch\<close> answers the requests of the loop.
  \<open>getReward\<close> is the lookup imported from \<^verbatim>\<open>./rewards\<close>, \<open>None\<close> for
  \<^verbatim>\<open>undefined\<close>. The \<open>_outcome\<close> fields say how the calls into the collaborators
  end: \<^verbatim>\<open>open\<close>, \<^verbatim>\<open>snap.toggleSnapFilter\<close>, \<^verbatim>\<open>giveaways.handleNewEntry\<close> and
  \<^verbatim>\<open>obs.switchScene\<close> on their argument, \<^verbatim>\<open>giveaways.selectWinner\<close>, which has none,
  and \<^verbatim>\<open>ws.emit\<close> on the chat event.
\<close>

record world =
  getToken_result :: "error + string"
  listSubscriptions_result :: "string \<Rightarrow> string \<Rightarrow> error + TwitchEventSubscription list option"
  fetch :: "request \<Rightarrow> fetch_outcome"
  getReward :: "string \<Rightarrow> Reward option"
  open_outcome :: "string \<Rightarrow> outcome"
  toggleSnapFilter_outcome :: "string \<Rightarrow> outcome"
  handleNewEntry_outcome :: "string \<Rightarrow> outcome"
  switchScene_outcome :: "string \<Rightarrow> outcome"
  selectWinner_outcome :: outcome
  wsEmit_outcome :: "TwitchChatEvent \<Rightarrow> outcome"

text \<open>
  An async function: the effects it performed, and how its promise settled
  (\<open>Inl\<close>: rejected with an error, \<open>Inr\<close>: fulfilled).
\<close>

type_synonym 'a io = "effect list \<times> (error + 'a)"

definition await_then :: "'a io \<Rightarrow> ('a \<Rightarrow> 'b io) \<Rightarrow> 'b io" where
  "await_then m f =
     (case m of
        (t, Inl e) \<Rightarrow> (t, Inl e)
      | (t, Inr x) \<Rightarrow> (case f x of (t', r) \<Rightarrow> (t @ t', r)))"

text \<open>A \<^verbatim>\<open>for ... of\<close> loop whose body awaits: an exception of the body leaves the loop.\<close>

fun for_of :: "('a \<Rightarrow> unit io) \<Rightarrow> 'a list \<Rightarrow> unit io" where
  "for_of body [] = ([], Inr ())"
| "for_of body (x # xs) = await_then (body x) (\<lambda>_. for_of body xs)"

section \<open>Reconciliation: setupEventSub\<close>

text \<open>\<^verbatim>\<open>deleteSubscription\<close> (lines 418--440): the fetch is awaited outside any try.\<close>

definition deleteSubscription ::
  "world \<Rightarrow> TwitchEventSubscription \<Rightarrow> string \<Rightarrow> string \<Rightarrow> http_response io" where
  "deleteSubscription w subscription token cid =
     (let req = DELETE_subscription (sub_id subscription) token cid in
      case fetch w req of
        Rejected \<Rightarrow> ([Fetch req], Inl FetchError)
      | Resolved response \<Rightarrow> ([Fetch req], Inr response))"

text \<open>
  \<^verbatim>\<open>createSubscription\<close> (lines 442--487): fetch and \<^verbatim>\<open>json()\<close> are inside the try,
  the catch logs and the function returns \<^verbatim>\<open>undefined\<close> (\<open>None\<close>).
\<close>

definition createSubscription ::
  "world \<Rightarrow> string \<Rightarrow> string \<Rightarrow> TwitchEventType \<Rightarrow> condition \<Rightarrow> string \<Rightarrow> string
     \<Rightarrow> TwitchEventSubscription list option io" where
  "createSubscription w token cid type cond cb secret =
     (let req = POST_subscription token cid
                  \<lparr>body_type = type, body_version = ''1'', body_condition = cond,
                   body_transport_method = ''webhook'', body_transport_callback = cb,
                   body_transport_secret = secret\<rparr> in
      case fetch w req of
        Rejected \<Rightarrow> ([Fetch req, ConsoleError FetchError], Inr None)
      | Resolved response \<Rightarrow>
          (case json response of
             None \<Rightarrow> ([Fetch req, ConsoleError JsonError], Inr None)
           | Some d \<Rightarrow> ([Fetch req], Inr (Some d))))"

text \<open>The list \<^verbatim>\<open>eventTypes\<close> (lines 212--220); a missing second component is \<open>None\<close>.\<close>

definition eventTypes :: "string \<Rightarrow> (TwitchEventType \<times> condition option) list" where
  "eventTypes uid =
     [(Channel_follow, None),
      (Channel_subscribe, None),
      (Channel_channel_points_custom_reward_redemption_add, None),
      (Channel_update, None),
      (Channel_cheer, None),
      (Channel_subscription_gift, None),
      (Channel_raid, Some [(''to_broadcaster_user_id'', uid)])]"

definition healthy :: "subscription_status \<Rightarrow> bool" where
  "healthy st \<longleftrightarrow> st = Enabled \<or> st = Webhook_callback_verification_pending"

text \<open>One pass through the body of the loop (lines 222--247).\<close>

definition iteration ::
  "TwitchController \<Rightarrow> world \<Rightarrow> string \<Rightarrow> TwitchEventSubscription list
     \<Rightarrow> TwitchEventType \<times> condition option \<Rightarrow> unit io" where
  "iteration this w token subscriptions et =
     (case et of (eventType, cond) \<Rightarrow>
        (let create =
               await_then
                 (createSubscription w token (clientId this) eventType
                    (case cond of Some c \<Rightarrow> c | None \<Rightarrow> [(''broadcaster_user_id'', userId this)])
                    (callback this) (webhookSecret this))
                 (\<lambda>_. ([], Inr ()))
         in
         case find (\<lambda>sub. sub_type sub = type_name eventType) subscriptions of
           None \<Rightarrow> create
         | Some existing \<Rightarrow>
             if healthy (sub_status existing) then ([], Inr ())
             else await_then (deleteSubscription w existing token (clientId this)) (\<lambda>_. create)))"

text \<open>
  \<^verbatim>\<open>setupEventSub\<close> (lines 206--249). When the listing has no \<^verbatim>\<open>data\<close>, the first
  \<^verbatim>\<open>subscriptions.find\<close> throws a TypeError.
\<close>

definition setupEventSub :: "TwitchController \<Rightarrow> world \<Rightarrow> unit io" where
  "setupEventSub this w =
     (case getToken_result w of
        Inl e \<Rightarrow> ([], Inl e)
      | Inr token \<Rightarrow>
          (case listSubscriptions_result w token (clientId this) of
             Inl e \<Rightarrow> ([], Inl e)
           | Inr None \<Rightarrow> ([], Inl TypeError)
           | Inr (Some subscriptions) \<Rightarrow>
               for_of (iteration this w token subscriptions) (eventTypes (userId this))))"

text \<open>The HTTP requests among the effects of a run, in order.\<close>

fun requests :: "effect list \<Rightarrow> request list" where
  "requests [] = []"
| "requests (Fetch r # t) = r # requests t"
| "requests (_ # t) = requests t"

section \<open>Chat: the onMessage handler of setupChatBot\<close>

text \<open>
  The async handler registered at lines 264--283; \<open>isBroadcaster\<close> and \<open>isMod\<close> are
  \<^verbatim>\<open>msg.userInfo.isBroadcaster\<close> and \<^verbatim>\<open>msg.userInfo.isMod\<close>. Neither call is awaited
  or inside a try: an exception of \<^verbatim>\<open>selectWinner\<close> (line 272) rejects the handler
  before the emit of line 275, an exception of the emit rejects it after; a promise that
  a call returns is dropped.
\<close>

definition onMessage ::
  "TwitchController \<Rightarrow> world \<Rightarrow> string \<Rightarrow> string \<Rightarrow> string \<Rightarrow> bool \<Rightarrow> bool \<Rightarrow> unit io" where
  "onMessage this w chan usr msg isBroadcaster isMod =
     await_then
       (if prefix ''!winner'' msg \<and> usr = username this then
          (case selectWinner_outcome w of
             Fulfils \<Rightarrow> ([SelectWinner], Inr ())
           | Throws \<Rightarrow> ([SelectWinner], Inl CollaboratorError)
           | Rejects \<Rightarrow> ([SelectWinner], Inr ()))
        else ([], Inr ()))
       (\<lambda>_. let event = \<lparr>chat_channel = chan, chat_user = usr, chat_message = msg,
                           chat_broadcaster = isBroadcaster, chat_moderator = isMod\<rparr> in
             case wsEmit_outcome w event of
               Fulfils \<Rightarrow> ([WsEmit ''twitch-chat-event'' event], Inr ())
             | Throws \<Rightarrow> ([WsEmit ''twitch-chat-event'' event], Inl CollaboratorError)
             | Rejects \<Rightarrow> ([WsEmit ''twitch-chat-event'' event], Inr ()))"

section \<open>Redemptions: handleEvent and redeem\<close>

text \<open>\<^verbatim>\<open>redeemShell\<close> (lines 319--328): \<^verbatim>\<open>!script\<close> holds for undefined and for the empty string.\<close>

definition redeemShell :: "world \<Rightarrow> Reward \<Rightarrow> unit io" where
  "redeemShell w reward =
     (case reward_script reward of
        None \<Rightarrow> ([], Inr ())
      | Some script \<Rightarrow>
          if script = [] then ([], Inr ())
          else (case open_outcome w script of
                  Fulfils \<Rightarrow> ([Open script], Inr ())
                | Throws \<Rightarrow> ([Open script, ConsoleError CollaboratorError], Inr ())
                | Rejects \<Rightarrow> ([Open script, ConsoleError CollaboratorError], Inr ())))"

text \<open>\<^verbatim>\<open>redeemSnapFilter\<close> (lines 330--339).\<close>

definition redeemSnapFilter :: "world \<Rightarrow> Reward \<Rightarrow> unit io" where
  "redeemSnapFilter w reward =
     (case reward_key reward of
        None \<Rightarrow> ([], Inr ())
      | Some k \<Rightarrow>
          if k = [] then ([], Inr ())
          else (case toggleSnapFilter_outcome w k of
                  Fulfils \<Rightarrow> ([ToggleSnapFilter k], Inr ())
                | Throws \<Rightarrow> ([ToggleSnapFilter k, ConsoleError CollaboratorError], Inr ())
                | Rejects \<Rightarrow> ([ToggleSnapFilter k, ConsoleError CollaboratorError], Inr ())))"

text \<open>
  \<^verbatim>\<open>redeemGiveawayEntry\<close> (lines 341--343): the call is neither awaited nor inside a
  try. An exception rejects the promise of the async function; a promise returned by
  the collaborator is dropped, so its rejection reaches nobody here.
\<close>

definition redeemGiveawayEntry :: "world \<Rightarrow> string \<Rightarrow> unit io" where
  "redeemGiveawayEntry w userName =
     (case handleNewEntry_outcome w userName of
        Fulfils \<Rightarrow> ([HandleNewEntry userName], Inr ())
      | Throws \<Rightarrow> ([HandleNewEntry userName], Inl CollaboratorError)
      | Rejects \<Rightarrow> ([HandleNewEntry userName], Inr ()))"

text \<open>
  \<^verbatim>\<open>redeem\<close> (lines 297--317). \<^verbatim>\<open>reward?.scene\<close> is truthy for a scene that is
  present and not the empty string; the scene switch is awaited outside any try.
\<close>

definition redeem :: "world \<Rightarrow> TwitchChannelRedemptionEvent \<Rightarrow> unit io" where
  "redeem w payload =
     (let reward = getReward w (redemption_reward_id payload) in
      await_then
        (case reward of
           None \<Rightarrow> ([], Inr ())
         | Some r \<Rightarrow>
             (case reward_type r of
                Shell \<Rightarrow> redeemShell w r
              | Snap_filter \<Rightarrow> redeemSnapFilter w r
              | Giveaway_entry \<Rightarrow> redeemGiveawayEntry w (redemption_user_name payload)))
        (\<lambda>_. case reward of
                None \<Rightarrow> ([], Inr ())
              | Some r \<Rightarrow>
                  (case reward_scene r of
                     None \<Rightarrow> ([], Inr ())
                   | Some scene \<Rightarrow>
                       if scene = [] then ([], Inr ())
                       else (case switchScene_outcome w scene of
                               Fulfils \<Rightarrow> ([SwitchScene scene], Inr ())
                             | Throws \<Rightarrow> ([SwitchScene scene], Inl CollaboratorError)
                             | Rejects \<Rightarrow> ([SwitchScene scene], Inl CollaboratorError)))))"

text \<open>\<^verbatim>\<open>handleEvent\<close> (lines 286--295): only the redemption type has a case.\<close>

fun handleEvent :: "world \<Rightarrow> TwitchEvent \<Rightarrow> unit io" where
  "handleEvent w (ChannelRedemptionEvent payload) = redeem w payload"
| "handleEvent w _ = ([], Inr ())"

section \<open>Predicates on listings and on requests\<close>

text \<open>
  The subscription that the loop calls \<^verbatim>\<open>existing\<close> for a type is the first one of the
  listing with that type; \<open>found_healthy\<close> says that there is one and that the test of
  lines 223--227 holds for it.
\<close>

definition found_healthy :: "TwitchEventSubscription list \<Rightarrow> TwitchEventType \<Rightarrow> bool" where
  "found_healthy subs T =
     (case find (\<lambda>sub. sub_type sub = type_name T) subs of
        None \<Rightarrow> False
      | Some existing \<Rightarrow> healthy (sub_status existing))"

definition healthy_of_type :: "TwitchEventType \<Rightarrow> TwitchEventSubscription \<Rightarrow> bool" where
  "healthy_of_type T s \<longleftrightarrow> sub_type s = type_name T \<and> healthy (sub_status s)"

text \<open>Some subscription of the listing has the type and a healthy status.\<close>

definition has_healthy :: "TwitchEventSubscription list \<Rightarrow> TwitchEventType \<Rightarrow> bool" where
  "has_healthy subs T = list_ex (healthy_of_type T) subs"

definition every_desired_type_has_healthy :: "TwitchEventSubscription list \<Rightarrow> string \<Rightarrow> bool" where
  "every_desired_type_has_healthy subs uid =
     list_all (\<lambda>et. has_healthy subs (fst et)) (eventTypes uid)"

definition every_desired_type_found_healthy :: "TwitchEventSubscription list \<Rightarrow> string \<Rightarrow> bool" where
  "every_desired_type_found_healthy subs uid =
     list_all (\<lambda>et. found_healthy subs (fst et)) (eventTypes uid)"

text \<open>
  A request concerns subscription id \<open>i\<close> and type \<open>T\<close> when it is a delete of \<open>i\<close>
  or a create of type \<open>T\<close>.
\<close>

fun concerns :: "string \<Rightarrow> TwitchEventType \<Rightarrow> request \<Rightarrow> bool" where
  "concerns i T (DELETE_subscription j _ _) = (j = i)"
| "concerns i T (POST_subscription _ _ b) = (body_type b = T)"

text \<open>The body that line 457 builds for a type and a resolved condition.\<close>

definition body_for :: "TwitchController \<Rightarrow> TwitchEventType \<Rightarrow> condition \<Rightarrow> create_body" where
  "body_for this T cond =
     \<lparr>body_type = T, body_version = ''1'', body_condition = cond,
      body_transport_method = ''webhook'', body_transport_callback = callback this,
      body_transport_secret = webhookSecret this\<rparr>"

section \<open>Example inputs\<close>

definition mk_sub ::
  "string \<Rightarrow> subscription_status \<Rightarrow> TwitchEventType \<Rightarrow> TwitchEventSubscription" where
  "mk_sub i st T =
     \<lparr>sub_id = i, sub_status = st, sub_type = type_name T, sub_version = ''1'',
      sub_condition = [(''broadcaster_user_id'', ''1234'')],
      sub_created_at = ''2023-01-01T00:00:00Z'', sub_transport_method = ''webhook'',
      sub_transport_callback = ''https://overlay.test/api/twitch'', sub_cost = 0\<rparr>"

definition demo_controller :: TwitchController where
  "demo_controller =
     \<lparr>clientId = ''client'', clientSecret = ''secret'', webhookSecret = ''hook'',
      callback = ''https://overlay.test/api/twitch'', userId = ''1234'',
      username = ''owner''\<rparr>"

text \<open>A service that accepts every request and enters each new subscription as pending.\<close>

fun demo_fetch :: "request \<Rightarrow> fetch_outcome" where
  "demo_fetch (DELETE_subscription i t c) = Resolved (Response 204 None)"
| "demo_fetch (POST_subscription t c b) =
     Resolved (Response 202
       (Some [mk_sub (''new-'' @ type_name (body_type b))
                Webhook_callback_verification_pending (body_type b)]))"

definition demo_getReward :: "string \<Rightarrow> Reward option" where
  "demo_getReward i =
     (if i = ''r-shell'' then
        Some \<lparr>reward_id = i, reward_type = Shell, reward_scene = None,
              reward_script = Some ''./party.sh'', reward_key = None\<rparr>
      else if i = ''r-snap'' then
        Some \<lparr>reward_id = i, reward_type = Snap_filter, reward_scene = Some ''cam'',
              reward_script = None, reward_key = Some ''k''\<rparr>
      else if i = ''r-give'' then
        Some \<lparr>reward_id = i, reward_type = Giveaway_entry, reward_scene = Some ''cam'',
              reward_script = None, reward_key = None\<rparr>
      else if i = ''r-blank'' then
        Some \<lparr>reward_id = i, reward_type = Giveaway_entry, reward_scene = Some '''',
              reward_script = None, reward_key = None\<rparr>
      else None)"

definition demo_world :: "TwitchEventSubscription list \<Rightarrow> world" where
  "demo_world subs =
     \<lparr>getToken_result = Inr ''token'',
      listSubscriptions_result = (\<lambda>_ _. Inr (Some subs)),
      fetch = demo_fetch,
      getReward = demo_getReward,
      open_outcome = (\<lambda>_. Fulfils),
      toggleSnapFilter_outcome = (\<lambda>_. Fulfils),
      handleNewEntry_outcome = (\<lambda>_. Fulfils),
      switchScene_outcome = (\<lambda>_. Fulfils),
      selectWinner_outcome = Fulfils,
      wsEmit_outcome = (\<lambda>_. Fulfils)\<rparr>"

definition demo_redemption :: "string \<Rightarrow> TwitchChannelRedemptionEvent" where
  "demo_redemption rid =
     \<lparr>redemption_id = ''e1'', redemption_user_id = ''77'', redemption_user_login = ''alice'',
      redemption_user_name = ''Alice'', redemption_user_input = '''',
      redemption_reward_id = rid, redemption_reward_title = ''title'',
      redemption_reward_cost = 100\<rparr>"

text \<open>Healthy subscriptions for the six desired types after \<^verbatim>\<open>channel.follow\<close>.\<close>

definition six_healthy :: "TwitchEventSubscription list" where
  "six_healthy =
     [mk_sub ''s2'' Enabled Channel_subscribe,
      mk_sub ''s3'' Enabled Channel_channel_points_custom_reward_redemption_add,
      mk_sub ''s4'' Webhook_callback_verification_pending Channel_update,
      mk_sub ''s5'' Enabled Channel_cheer,
      mk_sub ''s6'' Enabled Channel_subscription_gift,
      mk_sub ''s7'' Enabled Channel_raid]"

text \<open>A listing: the given subscriptions for \<^verbatim>\<open>channel.follow\<close>, then the six healthy ones.\<close>

definition listing_with :: "TwitchEventSubscription list \<Rightarrow> TwitchEventSubscription list" where
  "listing_with follows = follows @ six_healthy"

text \<open>A network on which every DELETE fails and every POST goes through.\<close>

fun delete_rejecting_fetch :: "request \<Rightarrow> fetch_outcome" where
  "delete_rejecting_fetch (DELETE_subscription i t c) = Rejected"
| "delete_rejecting_fetch (POST_subscription t c b) = demo_fetch (POST_subscription t c b)"

definition delete_rejecting_world :: "TwitchEventSubscription list \<Rightarrow> world" where
  "delete_rejecting_world subs = (demo_world subs)\<lparr>fetch := delete_rejecting_fetch\<rparr>"

text \<open>A network on which every request fails.\<close>

definition all_rejecting_world :: "TwitchEventSubscription list \<Rightarrow> world" where
  "all_rejecting_world subs = (demo_world subs)\<lparr>fetch := (\<lambda>_. Rejected)\<rparr>"

text \<open>The three reward actions throw, whatever the argument; the scene switch works.\<close>

definition throwing_world :: world where
  "throwing_world =
     (demo_world [])\<lparr>open_outcome := (\<lambda>_. Throws), toggleSnapFilter_outcome := (\<lambda>_. Throws),
                     handleNewEntry_outcome := (\<lambda>_. Throws)\<rparr>"

text \<open>The winner selection throws.\<close>

definition selectWinner_throwing_world :: world where
  "selectWinner_throwing_world = (demo_world [])\<lparr>selectWinner_outcome := Throws\<rparr>"

section \<open>The remote registry\<close>

definition accepted :: "http_response \<Rightarrow> bool" where
  "accepted r \<longleftrightarrow> 200 \<le> status r \<and> status r < 300"

text \<open>
  Modelled from the spec: the registry is the platform's service, which the
  repository only calls. Its contract in the spec: a subscription is identified by its
  id, DELETE \<^verbatim>\<open>/eventsub/subscriptions?id=<id>\<close> removes it, POST
  \<^verbatim>\<open>/eventsub/subscriptions\<close> creates one. A request changes the registry when the
  service answers it with a 2xx status; the subscriptions that a create enters are the
  ones its response reports in \<^verbatim>\<open>data\<close>. Effects other than requests leave it alone.
\<close>

fun registry_after ::
  "world \<Rightarrow> TwitchEventSubscription list \<Rightarrow> effect \<Rightarrow> TwitchEventSubscription list" where
  "registry_after w reg (Fetch (DELETE_subscription i t c)) =
     (case fetch w (DELETE_subscription i t c) of
        Rejected \<Rightarrow> reg
      | Resolved r \<Rightarrow> if accepted r then filter (\<lambda>s. sub_id s \<noteq> i) reg else reg)"
| "registry_after w reg (Fetch (POST_subscription t c b)) =
     (case fetch w (POST_subscription t c b) of
        Rejected \<Rightarrow> reg
      | Resolved r \<Rightarrow>
          if accepted r then (case json r of None \<Rightarrow> reg | Some created \<Rightarrow> reg @ created)
          else reg)"
| "registry_after w reg _ = reg"

text \<open>The registry after a run of \<^verbatim>\<open>setupEventSub\<close> that started on registry \<open>reg\<close>.\<close>

definition final_registry ::
  "TwitchController \<Rightarrow> world \<Rightarrow> TwitchEventSubscription list \<Rightarrow> TwitchEventSubscription list" where
  "final_registry this w reg = foldl (registry_after w) reg (fst (setupEventSub this w))"

definition of_type :: "TwitchEventType \<Rightarrow> TwitchEventSubscription list \<Rightarrow> TwitchEventSubscription list" where
  "of_type T reg = filter (\<lambda>s. sub_type s = type_name T) reg"

definition count_healthy :: "TwitchEventType \<Rightarrow> TwitchEventSubscription list \<Rightarrow> nat" where
  "count_healthy T reg = length (filter (healthy_of_type T) reg)"

text \<open>No subscription of type \<open>T\<close> listed behind the first one of type \<open>T\<close> is healthy.\<close>

definition no_healthy_behind_first :: "TwitchEventSubscription list \<Rightarrow> TwitchEventType \<Rightarrow> bool" where
  "no_healthy_behind_first reg T =
     list_all (\<lambda>s. \<not> healthy (sub_status s)) (tl (of_type T reg))"

text \<open>
  The service accepts a request: it answers a delete with a 2xx status, and a create
  with a 2xx status and a report of one new subscription, of the type asked for, with
  a healthy status and an id that no subscription of the listing \<open>reg\<close> has.
\<close>

fun request_succeeds :: "world \<Rightarrow> TwitchEventSubscription list \<Rightarrow> request \<Rightarrow> bool" where
  "request_succeeds w reg (DELETE_subscription i t c) =
     (case fetch w (DELETE_subscription i t c) of
        Rejected \<Rightarrow> False
      | Resolved r \<Rightarrow> accepted r)"
| "request_succeeds w reg (POST_subscription t c b) =
     (case fetch w (POST_subscription t c b) of
        Rejected \<Rightarrow> False
      | Resolved r \<Rightarrow>
          accepted r \<and>
          (case json r of
             Some [s] \<Rightarrow> sub_type s = type_name (body_type b) \<and> healthy (sub_status s)
                          \<and> sub_id s \<notin> set (map sub_id reg)
           | _ \<Rightarrow> False))"

section \<open>Sequencing\<close>

lemma await_then_ok: "snd m = Inr x \<Longrightarrow> await_then m f = (fst m @ fst (f x), snd (f x))"
  by (cases m) (simp add: await_then_def split: prod.splits)

lemma await_then_fails: "snd m = Inl e \<Longrightarrow> await_then m f = (fst m, Inl e)"
  by (cases m) (simp add: await_then_def)

lemma for_of_all_ok:
  "\<forall>x\<in>set xs. snd (body x) = Inr () \<Longrightarrow>
     for_of body xs = (concat (map (\<lambda>x. fst (body x)) xs), Inr ())"
  by (induction xs) (simp_all add: await_then_ok)

lemma for_of_completes:
  "snd (for_of body xs) = Inr () \<Longrightarrow> \<forall>x\<in>set xs. snd (body x) = Inr ()"
proof (induction xs)
  case Nil
  then show ?case by simp
next
  case (Cons x xs)
  show ?case
  proof (cases "snd (body x)")
    case (Inl e)
    with Cons.prems show ?thesis by (simp add: await_then_fails)
  next
    case (Inr u)
    with Cons show ?thesis by (simp add: await_then_ok)
  qed
qed

lemma requests_append: "requests (s @ t) = requests s @ requests t"
  by (induction s rule: requests.induct) simp_all

lemma requests_concat: "requests (concat ts) = concat (map requests ts)"
  by (induction ts) (simp_all add: requests_append)

section \<open>The steps of the reconciliation loop\<close>

lemma createSubscription_fulfils: "\<exists>r. snd (createSubscription w token cid T cond cb secret) = Inr r"
  by (simp add: createSubscription_def Let_def split: fetch_outcome.splits option.splits)

lemma createSubscription_requests:
  "requests (fst (createSubscription w token (clientId this) T cond (callback this) (webhookSecret this)))
     = [POST_subscription token (clientId this) (body_for this T cond)]"
  by (simp add: createSubscription_def body_for_def Let_def
           split: fetch_outcome.splits option.splits)

lemma deleteSubscription_requests:
  "requests (fst (deleteSubscription w s token cid)) = [DELETE_subscription (sub_id s) token cid]"
  by (simp add: deleteSubscription_def Let_def split: fetch_outcome.splits)

text \<open>A failing create is logged and the pass ends normally.\<close>

lemma iteration_absent:
  assumes "find (\<lambda>sub. sub_type sub = type_name T) subs = None"
  shows "snd (iteration this w token subs (T, c)) = Inr ()"
    and "requests (fst (iteration this w token subs (T, c))) =
           [POST_subscription token (clientId this)
              (body_for this T (case c of Some c' \<Rightarrow> c' | None \<Rightarrow> [(''broadcaster_user_id'', userId this)]))]"
proof -
  let ?cr = "createSubscription w token (clientId this) T
               (case c of Some c' \<Rightarrow> c' | None \<Rightarrow> [(''broadcaster_user_id'', userId this)])
               (callback this) (webhookSecret this)"
  obtain r where r: "snd ?cr = Inr r"
    using createSubscription_fulfils by blast
  have it: "iteration this w token subs (T, c) = await_then ?cr (\<lambda>_. ([], Inr ()))"
    using assms by (simp add: iteration_def)
  show "snd (iteration this w token subs (T, c)) = Inr ()"
    by (simp add: it await_then_ok [OF r])
  show "requests (fst (iteration this w token subs (T, c))) =
           [POST_subscription token (clientId this)
              (body_for this T (case c of Some c' \<Rightarrow> c' | None \<Rightarrow> [(''broadcaster_user_id'', userId this)]))]"
    by (simp add: it await_then_ok [OF r] createSubscription_requests)
qed

lemma iteration_healthy:
  assumes "find (\<lambda>sub. sub_type sub = type_name T) subs = Some e" "healthy (sub_status e)"
  shows "iteration this w token subs (T, c) = ([], Inr ())"
  using assms by (simp add: iteration_def)

lemma iteration_unhealthy_requests:
  assumes "find (\<lambda>sub. sub_type sub = type_name T) subs = Some e" "\<not> healthy (sub_status e)"
    and "snd (iteration this w token subs (T, c)) = Inr ()"
  shows "requests (fst (iteration this w token subs (T, c))) =
           [DELETE_subscription (sub_id e) token (clientId this),
            POST_subscription token (clientId this)
              (body_for this T (case c of Some c' \<Rightarrow> c' | None \<Rightarrow> [(''broadcaster_user_id'', userId this)]))]"
proof -
  let ?cr = "createSubscription w token (clientId this) T
               (case c of Some c' \<Rightarrow> c' | None \<Rightarrow> [(''broadcaster_user_id'', userId this)])
               (callback this) (webhookSecret this)"
  let ?create = "await_then ?cr (\<lambda>_. ([], Inr ()))"
  let ?del = "deleteSubscription w e token (clientId this)"
  obtain r where r: "snd ?cr = Inr r"
    using createSubscription_fulfils by blast
  have it: "iteration this w token subs (T, c) = await_then ?del (\<lambda>_. ?create)"
    using assms(1,2) by (simp add: iteration_def)
  show ?thesis
  proof (cases "snd ?del")
    case (Inl err)
    with assms(3) show ?thesis by (simp add: it await_then_fails)
  next
    case (Inr resp)
    show ?thesis
      by (simp add: it await_then_ok [OF Inr] await_then_ok [OF r] requests_append
            deleteSubscription_requests createSubscription_requests)
  qed
qed

lemma setupEventSub_loop:
  assumes "getToken_result w = Inr token"
    and "listSubscriptions_result w token (clientId this) = Inr (Some subs)"
  shows "setupEventSub this w = for_of (iteration this w token subs) (eventTypes (userId this))"
  using assms by (simp add: setupEventSub_def)

section \<open>Reconciliation on an empty registry\<close>

text \<open>
  C9. When the listing is empty, the requests of the run are exactly one create per
  desired type, in the order of the list; the create for \<^verbatim>\<open>channel.raid\<close> carries the
  override \<^verbatim>\<open>{to_broadcaster_user_id: userId}\<close>, every other one the default
  \<^verbatim>\<open>{broadcaster_user_id: userId}\<close>. Whether the creates succeed plays no role.
\<close>

theorem empty_registry_creates_each_type:
  assumes "getToken_result w = Inr token"
    and "listSubscriptions_result w token (clientId this) = Inr (Some [])"
  shows "requests (fst (setupEventSub this w)) =
     [POST_subscription token (clientId this)
        (body_for this Channel_follow [(''broadcaster_user_id'', userId this)]),
      POST_subscription token (clientId this)
        (body_for this Channel_subscribe [(''broadcaster_user_id'', userId this)]),
      POST_subscription token (clientId this)
        (body_for this Channel_channel_points_custom_reward_redemption_add
           [(''broadcaster_user_id'', userId this)]),
      POST_subscription token (clientId this)
        (body_for this Channel_update [(''broadcaster_user_id'', userId this)]),
      POST_subscription token (clientId this)
        (body_for this Channel_cheer [(''broadcaster_user_id'', userId this)]),
      POST_subscription token (clientId this)
        (body_for this Channel_subscription_gift [(''broadcaster_user_id'', userId this)]),
      POST_subscription token (clientId this)
        (body_for this Channel_raid [(''to_broadcaster_user_id'', userId this)])]"
proof -
  have ok: "\<forall>et\<in>set (eventTypes (userId this)). snd (iteration this w token [] et) = Inr ()"
    using iteration_absent(1) [of _ "[]"] by auto
  have "requests (fst (setupEventSub this w)) =
          concat (map (\<lambda>et. requests (fst (iteration this w token [] et))) (eventTypes (userId this)))"
    by (simp add: setupEventSub_loop [OF assms] for_of_all_ok [OF ok] requests_concat comp_def)
  also have "\<dots> = concat (map (\<lambda>et. [POST_subscription token (clientId this)
              (body_for this (fst et)
                 (case snd et of Some c' \<Rightarrow> c' | None \<Rightarrow> [(''broadcaster_user_id'', userId this)]))])
            (eventTypes (userId this)))"
  proof -
    have "requests (fst (iteration this w token [] et)) =
            [POST_subscription token (clientId this)
               (body_for this (fst et)
                  (case snd et of Some c' \<Rightarrow> c' | None \<Rightarrow> [(''broadcaster_user_id'', userId this)]))]"
      for et
      using iteration_absent(2) [of "fst et" "[]" this w token "snd et"] by simp
    then show ?thesis by simp
  qed
  finally show ?thesis by (simp add: eventTypes_def)
qed

theorem empty_registry_creates_each_type_witness:
  "requests (fst (setupEventSub demo_controller (demo_world []))) =
     [POST_subscription ''token'' ''client''
        (body_for demo_controller Channel_follow [(''broadcaster_user_id'', ''1234'')]),
      POST_subscription ''token'' ''client''
        (body_for demo_controller Channel_subscribe [(''broadcaster_user_id'', ''1234'')]),
      POST_subscription ''token'' ''client''
        (body_for demo_controller Channel_channel_points_custom_reward_redemption_add
           [(''broadcaster_user_id'', ''1234'')]),
      POST_subscription ''token'' ''client''
        (body_for demo_controller Channel_update [(''broadcaster_user_id'', ''1234'')]),
      POST_subscription ''token'' ''client''
        (body_for demo_controller Channel_cheer [(''broadcaster_user_id'', ''1234'')]),
      POST_subscription ''token'' ''client''
        (body_for demo_controller Channel_subscription_gift [(''broadcaster_user_id'', ''1234'')]),
      POST_subscription ''token'' ''client''
        (body_for demo_controller Channel_raid [(''to_broadcaster_user_id'', ''1234'')])]"
  using empty_registry_creates_each_type [of "demo_world []" "''token''" demo_controller]
  by (simp add: demo_world_def demo_controller_def)

section \<open>Re-running on a healthy registry\<close>

text \<open>
  C2, as the code has it. When for every desired type the first listed subscription
  of that type is enabled or pending verification, the run performs no effect at all:
  no delete, no create.
\<close>

theorem healthy_registry_is_noop:
  assumes "getToken_result w = Inr token"
    and "listSubscriptions_result w token (clientId this) = Inr (Some subs)"
    and "every_desired_type_found_healthy subs (userId this)"
  shows "setupEventSub this w = ([], Inr ())"
proof -
  have each: "\<forall>et\<in>set (eventTypes (userId this)). iteration this w token subs et = ([], Inr ())"
  proof
    fix et assume "et \<in> set (eventTypes (userId this))"
    with assms(3) have "found_healthy subs (fst et)"
      by (simp add: every_desired_type_found_healthy_def list_all_iff)
    then obtain e where "find (\<lambda>sub. sub_type sub = type_name (fst et)) subs = Some e"
      and "healthy (sub_status e)"
      by (auto simp: found_healthy_def split: option.splits)
    then show "iteration this w token subs et = ([], Inr ())"
      using iteration_healthy [of "fst et" subs e this w token "snd et"] by simp
  qed
  then have "\<forall>et\<in>set (eventTypes (userId this)). snd (iteration this w token subs et) = Inr ()"
    by simp
  from for_of_all_ok [OF this] each show ?thesis
    by (simp add: setupEventSub_loop [OF assms(1,2)])
qed

theorem healthy_registry_is_noop_witness:
  "every_desired_type_found_healthy (listing_with [mk_sub ''s1'' Enabled Channel_follow]) ''1234''
   \<and> setupEventSub demo_controller (demo_world (listing_with [mk_sub ''s1'' Enabled Channel_follow]))
       = ([], Inr ())"
proof -
  have h: "every_desired_type_found_healthy
             (listing_with [mk_sub ''s1'' Enabled Channel_follow]) (userId demo_controller)"
    by (simp add: every_desired_type_found_healthy_def found_healthy_def eventTypes_def
          listing_with_def six_healthy_def mk_sub_def healthy_def demo_controller_def)
  have "setupEventSub demo_controller (demo_world (listing_with [mk_sub ''s1'' Enabled Channel_follow]))
          = ([], Inr ())"
    by (rule healthy_registry_is_noop [OF _ _ h, of _ "''token''"])
       (simp_all add: demo_world_def)
  with h show ?thesis by (simp add: demo_controller_def)
qed

text \<open>
  The claim C2 as it is worded asks only that some listed subscription of each desired
  type is healthy. In the listing below an \<^verbatim>\<open>authorization_revoked\<close> subscription for
  \<^verbatim>\<open>channel.follow\<close> stands before an enabled one: \<^verbatim>\<open>find\<close> returns the revoked one,
  and the run deletes it and creates a new one.
\<close>

theorem some_healthy_is_not_enough:
  "every_desired_type_has_healthy
     (listing_with [mk_sub ''old'' Authorization_revoked Channel_follow,
                    mk_sub ''s1'' Enabled Channel_follow]) ''1234''
   \<and> requests (fst (setupEventSub demo_controller
        (demo_world (listing_with [mk_sub ''old'' Authorization_revoked Channel_follow,
                                   mk_sub ''s1'' Enabled Channel_follow]))))
       = [DELETE_subscription ''old'' ''token'' ''client'',
          POST_subscription ''token'' ''client''
            (body_for demo_controller Channel_follow [(''broadcaster_user_id'', ''1234'')])]"
  by (simp add: every_desired_type_has_healthy_def has_healthy_def healthy_of_type_def
        eventTypes_def listing_with_def six_healthy_def mk_sub_def healthy_def
        demo_controller_def demo_world_def setupEventSub_def iteration_def await_then_def
        deleteSubscription_def createSubscription_def body_for_def Let_def)

section \<open>Replacing an unhealthy subscription\<close>

lemma type_name_inj: "type_name a = type_name b \<Longrightarrow> a = b"
  by (cases a; cases b; simp)

lemma eventTypes_fst_unique:
  "x \<in> set (eventTypes uid) \<Longrightarrow> y \<in> set (eventTypes uid) \<Longrightarrow> fst x = fst y \<Longrightarrow> x = y"
  by (auto simp: eventTypes_def)

lemma distinct_eventTypes: "distinct (eventTypes uid)"
  by (simp add: eventTypes_def)

lemma filter_concat_single:
  "distinct xs \<Longrightarrow> x \<in> set xs \<Longrightarrow> (\<And>y. y \<in> set xs \<Longrightarrow> y \<noteq> x \<Longrightarrow> filter P (f y) = [])
     \<Longrightarrow> filter P (concat (map f xs)) = filter P (f x)"
proof (induction xs)
  case Nil
  then show ?case by simp
next
  case (Cons a xs)
  show ?case
  proof (cases "a = x")
    case True
    with Cons.prems(1) have "\<And>y. y \<in> set xs \<Longrightarrow> y \<noteq> x" by auto
    with Cons.prems(3) have "\<And>y. y \<in> set xs \<Longrightarrow> filter P (f y) = []" by simp
    then have "filter P (concat (map f xs)) = []"
      by (induction xs) simp_all
    with True show ?thesis by simp
  next
    case False
    with Cons.prems have "filter P (f a) = []" and "x \<in> set xs" and "distinct xs" by auto
    with Cons.IH Cons.prems(3) show ?thesis by simp
  qed
qed

text \<open>
  The requests of a pass that ended normally: nothing, a create, or a delete of the
  found subscription and then a create.
\<close>

lemma iteration_requests_cases:
  assumes "snd (iteration this w token subs (T, c)) = Inr ()"
  shows "requests (fst (iteration this w token subs (T, c))) =
     (case find (\<lambda>sub. sub_type sub = type_name T) subs of
        None \<Rightarrow> [POST_subscription token (clientId this)
                   (body_for this T (case c of Some c' \<Rightarrow> c' | None \<Rightarrow> [(''broadcaster_user_id'', userId this)]))]
      | Some e \<Rightarrow>
          if healthy (sub_status e) then []
          else [DELETE_subscription (sub_id e) token (clientId this),
                POST_subscription token (clientId this)
                   (body_for this T (case c of Some c' \<Rightarrow> c' | None \<Rightarrow> [(''broadcaster_user_id'', userId this)]))])"
proof (cases "find (\<lambda>sub. sub_type sub = type_name T) subs")
  case None
  then show ?thesis using iteration_absent(2) [OF None] by simp
next
  case (Some e)
  show ?thesis
  proof (cases "healthy (sub_status e)")
    case True
    with Some show ?thesis by (simp add: iteration_healthy)
  next
    case False
    with Some assms show ?thesis by (simp add: iteration_unhealthy_requests)
  qed
qed

lemma find_type_member:
  "find (\<lambda>sub. sub_type sub = t) subs = Some e \<Longrightarrow> e \<in> set subs \<and> sub_type e = t"
  by (auto simp: find_Some_iff)

lemma distinct_ids_eq:
  "distinct (map sub_id subs) \<Longrightarrow> a \<in> set subs \<Longrightarrow> b \<in> set subs \<Longrightarrow> sub_id a = sub_id b \<Longrightarrow> a = b"
  by (auto simp: distinct_map inj_on_def)

text \<open>
  C3, as the code has it. Take a listing with unique ids in which the first listed
  subscription \<open>e\<close> of a desired type \<open>T\<close> is unhealthy, and a run in which no request
  throws, so that the run ends normally. Then among the requests of the run, those that
  delete the id of \<open>e\<close> or create type \<open>T\<close> are exactly two: the delete of \<open>e\<close>, and
  after it the create for \<open>T\<close> with the resolved condition.
\<close>

theorem unhealthy_is_deleted_then_created:
  assumes "getToken_result w = Inr token"
    and "listSubscriptions_result w token (clientId this) = Inr (Some subs)"
    and "distinct (map sub_id subs)"
    and "(T, c) \<in> set (eventTypes (userId this))"
    and "find (\<lambda>sub. sub_type sub = type_name T) subs = Some e"
    and "\<not> healthy (sub_status e)"
    and "snd (setupEventSub this w) = Inr ()"
  shows "filter (concerns (sub_id e) T) (requests (fst (setupEventSub this w))) =
           [DELETE_subscription (sub_id e) token (clientId this),
            POST_subscription token (clientId this)
              (body_for this T
                 (case c of Some c' \<Rightarrow> c' | None \<Rightarrow> [(''broadcaster_user_id'', userId this)]))]"
proof -
  let ?body = "iteration this w token subs"
  let ?ets = "eventTypes (userId this)"
  have loop: "setupEventSub this w = for_of ?body ?ets"
    by (rule setupEventSub_loop [OF assms(1,2)])
  with assms(7) have ok: "\<forall>et\<in>set ?ets. snd (?body et) = Inr ()"
    using for_of_completes by metis
  have trace: "requests (fst (setupEventSub this w)) = concat (map (\<lambda>et. requests (fst (?body et))) ?ets)"
    by (simp add: loop for_of_all_ok [OF ok] requests_concat comp_def)
  have e_in: "e \<in> set subs" and e_type: "sub_type e = type_name T"
    using find_type_member [OF assms(5)] by simp_all
  have other: "filter (concerns (sub_id e) T) (requests (fst (?body et))) = []"
    if "et \<in> set ?ets" "et \<noteq> (T, c)" for et
  proof -
    obtain T' c' where et: "et = (T', c')" by (cases et)
    have T': "T' \<noteq> T"
      using eventTypes_fst_unique [OF that(1) assms(4)] that(2) et by auto
    have fin: "snd (?body (T', c')) = Inr ()"
      using ok that(1) et by blast
    show ?thesis
    proof (cases "find (\<lambda>sub. sub_type sub = type_name T') subs")
      case None
      with T' show ?thesis
        by (simp add: et iteration_requests_cases [OF fin] body_for_def)
    next
      case (Some e')
      have "e' \<in> set subs" and "sub_type e' = type_name T'"
        using find_type_member [OF Some] by simp_all
      with e_type T' have "e' \<noteq> e"
        using type_name_inj by auto
      with \<open>e' \<in> set subs\<close> e_in have "sub_id e' \<noteq> sub_id e"
        using distinct_ids_eq [OF assms(3)] by blast
      with Some T' show ?thesis
        by (simp add: et iteration_requests_cases [OF fin] body_for_def)
    qed
  qed
  have "filter (concerns (sub_id e) T) (requests (fst (setupEventSub this w))) =
          filter (concerns (sub_id e) T) (requests (fst (?body (T, c))))"
    unfolding trace
    by (rule filter_concat_single [OF distinct_eventTypes assms(4)]) (rule other)
  also have "\<dots> = [DELETE_subscription (sub_id e) token (clientId this),
            POST_subscription token (clientId this)
              (body_for this T
                 (case c of Some c' \<Rightarrow> c' | None \<Rightarrow> [(''broadcaster_user_id'', userId this)]))]"
  proof -
    have "snd (?body (T, c)) = Inr ()" using ok assms(4) by blast
    from iteration_unhealthy_requests [OF assms(5,6) this] show ?thesis
      by (simp add: body_for_def)
  qed
  finally show ?thesis .
qed

theorem unhealthy_is_deleted_then_created_witness:
  "filter (concerns ''old'' Channel_follow)
     (requests (fst (setupEventSub demo_controller
        (demo_world (listing_with [mk_sub ''old'' Authorization_revoked Channel_follow]))))) =
     [DELETE_subscription ''old'' ''token'' ''client'',
      POST_subscription ''token'' ''client''
        (body_for demo_controller Channel_follow [(''broadcaster_user_id'', ''1234'')])]"
proof -
  let ?subs = "listing_with [mk_sub ''old'' Authorization_revoked Channel_follow]"
  let ?e = "mk_sub ''old'' Authorization_revoked Channel_follow"
  have 1: "getToken_result (demo_world ?subs) = Inr ''token''"
    by (simp add: demo_world_def)
  have 2: "listSubscriptions_result (demo_world ?subs) ''token'' (clientId demo_controller) = Inr (Some ?subs)"
    by (simp add: demo_world_def)
  have 3: "distinct (map sub_id ?subs)"
    by (simp add: listing_with_def six_healthy_def mk_sub_def)
  have 4: "(Channel_follow, None) \<in> set (eventTypes (userId demo_controller))"
    by (simp add: eventTypes_def)
  have 5: "find (\<lambda>sub. sub_type sub = type_name Channel_follow) ?subs = Some ?e"
    by (simp add: listing_with_def mk_sub_def)
  have 6: "\<not> healthy (sub_status ?e)"
    by (simp add: mk_sub_def healthy_def)
  have 7: "snd (setupEventSub demo_controller (demo_world ?subs)) = Inr ()"
    by (simp add: eventTypes_def listing_with_def six_healthy_def mk_sub_def healthy_def
        demo_controller_def demo_world_def setupEventSub_def iteration_def await_then_def
        deleteSubscription_def createSubscription_def Let_def)
  from unhealthy_is_deleted_then_created [OF 1 2 3 4 5 6 7]
  show ?thesis by (simp add: mk_sub_def demo_controller_def)
qed

text \<open>
  The claim C3 as it is worded asks only that the registry holds an unhealthy
  subscription of the type. In the listing below the revoked subscription
  \<^verbatim>\<open>old\<close> for \<^verbatim>\<open>channel.follow\<close> stands after an enabled one: \<^verbatim>\<open>find\<close> returns the
  enabled one, the pass is skipped, and the run issues no request at all.
\<close>

theorem unhealthy_behind_healthy_is_kept:
  "mk_sub ''old'' Authorization_revoked Channel_follow
       \<in> set (listing_with [mk_sub ''s1'' Enabled Channel_follow,
                            mk_sub ''old'' Authorization_revoked Channel_follow])
   \<and> sub_type (mk_sub ''old'' Authorization_revoked Channel_follow) = type_name Channel_follow
   \<and> \<not> healthy (sub_status (mk_sub ''old'' Authorization_revoked Channel_follow))
   \<and> setupEventSub demo_controller
        (demo_world (listing_with [mk_sub ''s1'' Enabled Channel_follow,
                                   mk_sub ''old'' Authorization_revoked Channel_follow]))
       = ([], Inr ())"
  by (simp add: healthy_of_type_def
        eventTypes_def listing_with_def six_healthy_def mk_sub_def healthy_def
        demo_controller_def demo_world_def setupEventSub_def iteration_def await_then_def
        deleteSubscription_def createSubscription_def body_for_def Let_def)

section \<open>Failing requests in the loop\<close>

text \<open>A create whose fetch or whose \<^verbatim>\<open>json()\<close> fails is logged and the loop goes on.\<close>

lemma failing_creates_do_not_stop_the_loop:
  assumes "getToken_result w = Inr token"
    and "listSubscriptions_result w token (clientId this) = Inr (Some [])"
  shows "snd (setupEventSub this w) = Inr ()"
proof -
  have ok: "\<forall>et\<in>set (eventTypes (userId this)). snd (iteration this w token [] et) = Inr ()"
    using iteration_absent(1) [of _ "[]"] by auto
  show ?thesis
    by (simp add: setupEventSub_loop [OF assms] for_of_all_ok [OF ok])
qed

text \<open>
  C4 on the code. The listing holds one revoked subscription, for \<^verbatim>\<open>channel.follow\<close>,
  and the fetch of every DELETE rejects. The await of line 232 throws out of the loop:
  the run ends rejected after the one delete request, with no create for
  \<^verbatim>\<open>channel.follow\<close> and nothing at all for the six types after it.
\<close>

theorem rejected_delete_aborts_the_loop:
  "setupEventSub demo_controller
     (delete_rejecting_world [mk_sub ''old'' Authorization_revoked Channel_follow])
   = ([Fetch (DELETE_subscription ''old'' ''token'' ''client'')], Inl FetchError)"
  by (simp add: eventTypes_def mk_sub_def healthy_def demo_controller_def
        delete_rejecting_world_def demo_world_def setupEventSub_def iteration_def
        await_then_def deleteSubscription_def Let_def)

text \<open>With a healthy \<^verbatim>\<open>channel.follow\<close> and every fetch rejecting, each of the six creates fails, is logged, and the next type is processed.\<close>

lemma rejected_create_is_logged:
  "setupEventSub demo_controller (all_rejecting_world [mk_sub ''s1'' Enabled Channel_follow])
   = ([Fetch (POST_subscription ''token'' ''client''
               (body_for demo_controller Channel_subscribe [(''broadcaster_user_id'', ''1234'')])),
       ConsoleError FetchError,
       Fetch (POST_subscription ''token'' ''client''
               (body_for demo_controller Channel_channel_points_custom_reward_redemption_add
                  [(''broadcaster_user_id'', ''1234'')])),
       ConsoleError FetchError,
       Fetch (POST_subscription ''token'' ''client''
               (body_for demo_controller Channel_update [(''broadcaster_user_id'', ''1234'')])),
       ConsoleError FetchError,
       Fetch (POST_subscription ''token'' ''client''
               (body_for demo_controller Channel_cheer [(''broadcaster_user_id'', ''1234'')])),
       ConsoleError FetchError,
       Fetch (POST_subscription ''token'' ''client''
               (body_for demo_controller Channel_subscription_gift [(''broadcaster_user_id'', ''1234'')])),
       ConsoleError FetchError,
       Fetch (POST_subscription ''token'' ''client''
               (body_for demo_controller Channel_raid [(''to_broadcaster_user_id'', ''1234'')])),
       ConsoleError FetchError],
      Inr ())"
  by (simp add: eventTypes_def mk_sub_def healthy_def demo_controller_def
        all_rejecting_world_def demo_world_def setupEventSub_def iteration_def
        await_then_def createSubscription_def body_for_def Let_def)

section \<open>The registry after reconciliation\<close>

lemma foldl_registry_create:
  "foldl (registry_after w) reg
     (fst (createSubscription w token (clientId this) T cond (callback this) (webhookSecret this)))
   = registry_after w reg (Fetch (POST_subscription token (clientId this) (body_for this T cond)))"
  by (simp add: createSubscription_def body_for_def Let_def
           split: fetch_outcome.splits option.splits)

lemma foldl_registry_delete:
  "foldl (registry_after w) reg (fst (deleteSubscription w e token cid))
   = registry_after w reg (Fetch (DELETE_subscription (sub_id e) token cid))"
  by (simp add: deleteSubscription_def Let_def split: fetch_outcome.splits)

lemma await_then_fst_prefix: "\<exists>t. fst (await_then m f) = fst m @ t"
  by (cases m; cases "snd m") (auto simp: await_then_def split: prod.splits)

text \<open>
  What one pass does to the registry when the service accepts the requests of the pass:
  it ends normally, and unless it is skipped it enters one new healthy subscription of
  its type, after removing the unhealthy one it found.
\<close>

lemma iteration_registry:
  assumes ok: "list_all (request_succeeds w subs) (requests (fst (iteration this w token subs (T, c))))"
  shows "snd (iteration this w token subs (T, c)) = Inr ()
       \<and> (\<not> found_healthy subs T \<longrightarrow>
            (\<exists>s. sub_type s = type_name T \<and> healthy (sub_status s) \<and> sub_id s \<notin> sub_id ` set subs
               \<and> (\<forall>reg. foldl (registry_after w) reg (fst (iteration this w token subs (T, c))) =
                     (case find (\<lambda>sub. sub_type sub = type_name T) subs of
                        None \<Rightarrow> reg @ [s]
                      | Some e \<Rightarrow> filter (\<lambda>x. sub_id x \<noteq> sub_id e) reg @ [s]))))"
proof -
  let ?cond = "case c of Some c' \<Rightarrow> c' | None \<Rightarrow> [(''broadcaster_user_id'', userId this)]"
  let ?post = "POST_subscription token (clientId this) (body_for this T ?cond)"
  let ?cr = "createSubscription w token (clientId this) T ?cond (callback this) (webhookSecret this)"
  let ?create = "await_then ?cr (\<lambda>_. ([], Inr ()))"
  let ?it = "iteration this w token subs (T, c)"
  obtain v where v: "snd ?cr = Inr v"
    using createSubscription_fulfils by blast
  have create_snd: "snd ?create = Inr ()"
    by (simp add: await_then_ok [OF v])
  have create_req: "requests (fst ?create) = [?post]"
    by (simp add: await_then_ok [OF v] createSubscription_requests)
  have create_reg: "\<exists>s. sub_type s = type_name T \<and> healthy (sub_status s) \<and> sub_id s \<notin> sub_id ` set subs
                      \<and> (\<forall>reg. foldl (registry_after w) reg (fst ?create) = reg @ [s])"
    if "request_succeeds w subs ?post"
  proof -
    from that obtain r s where post: "fetch w ?post = Resolved r" and acc: "accepted r"
      and js: "json r = Some [s]" and ty: "sub_type s = type_name T"
      and he: "healthy (sub_status s)" and fresh: "sub_id s \<notin> sub_id ` set subs"
      by (auto simp: body_for_def split: fetch_outcome.splits option.splits list.splits)
    have "foldl (registry_after w) reg (fst ?create) = reg @ [s]" for reg
      by (simp add: await_then_ok [OF v] foldl_registry_create post acc js)
    with ty he fresh show ?thesis by blast
  qed
  show ?thesis
  proof (cases "find (\<lambda>sub. sub_type sub = type_name T) subs")
    case None
    then have it: "?it = ?create"
      by (simp add: iteration_def)
    with ok create_req have "request_succeeds w subs ?post" by simp
    from create_reg [OF this] None create_snd show ?thesis by (simp add: it)
  next
    case (Some e)
    show ?thesis
    proof (cases "healthy (sub_status e)")
      case True
      with Some show ?thesis by (simp add: iteration_healthy found_healthy_def)
    next
      case False
      let ?del = "deleteSubscription w e token (clientId this)"
      let ?delete = "DELETE_subscription (sub_id e) token (clientId this)"
      have it: "?it = await_then ?del (\<lambda>_. ?create)"
        using Some False by (simp add: iteration_def)
      obtain t where "fst ?it = fst ?del @ t"
        unfolding it using await_then_fst_prefix by blast
      then have "requests (fst ?it) = ?delete # requests t"
        by (simp add: requests_append deleteSubscription_requests)
      with ok have "request_succeeds w subs ?delete" by simp
      then obtain r' where dl: "fetch w ?delete = Resolved r'" and acc': "accepted r'"
        by (auto split: fetch_outcome.splits)
      have del_snd: "snd ?del = Inr r'"
        by (simp add: deleteSubscription_def Let_def dl)
      have "requests (fst ?it) = [?delete, ?post]"
        by (simp add: it await_then_ok [OF del_snd] requests_append
              deleteSubscription_requests create_req)
      with ok have "request_succeeds w subs ?post" by simp
      from create_reg [OF this]
      obtain s where s: "sub_type s = type_name T" "healthy (sub_status s)"
          "sub_id s \<notin> sub_id ` set subs"
        and cr_reg: "\<And>reg. foldl (registry_after w) reg (fst ?create) = reg @ [s]"
        by blast
      have "foldl (registry_after w) reg (fst ?it) = filter (\<lambda>x. sub_id x \<noteq> sub_id e) reg @ [s]"
        for reg
        by (simp add: it await_then_ok [OF del_snd] foldl_registry_delete dl acc' cr_reg)
      moreover have "snd ?it = Inr ()"
        by (simp add: it await_then_ok [OF del_snd] create_snd)
      ultimately show ?thesis using Some s by auto
    qed
  qed
qed

lemma of_type_append: "of_type T (xs @ ys) = of_type T xs @ of_type T ys"
  by (simp add: of_type_def)

lemma of_type_none:
  "find (\<lambda>sub. sub_type sub = type_name T) subs = None \<Longrightarrow> of_type T subs = []"
  by (auto simp: of_type_def find_None_iff filter_empty_conv)

lemma find_filter_hd: "find P xs = Some e \<Longrightarrow> \<exists>ys. filter P xs = e # ys"
  by (induction xs) (auto split: if_splits)

lemma of_type_first:
  assumes "find (\<lambda>sub. sub_type sub = type_name T) subs = Some e"
    and "no_healthy_behind_first subs T"
  shows "\<exists>ys. of_type T subs = e # ys \<and> filter (\<lambda>x. healthy (sub_status x)) ys = []"
proof -
  from find_filter_hd [OF assms(1)] obtain ys where ys: "of_type T subs = e # ys"
    by (auto simp: of_type_def)
  with assms(2) have "filter (\<lambda>x. healthy (sub_status x)) ys = []"
    by (simp add: no_healthy_behind_first_def list_all_iff filter_empty_conv)
  with ys show ?thesis by blast
qed

lemma count_healthy_of_type:
  "count_healthy T reg = length (filter (\<lambda>x. healthy (sub_status x)) (of_type T reg))"
proof -
  have "filter (healthy_of_type T) reg = filter (\<lambda>x. healthy (sub_status x)) (of_type T reg)"
    unfolding of_type_def filter_filter healthy_of_type_def by (intro filter_cong) auto
  then show ?thesis by (simp add: count_healthy_def)
qed

text \<open>A skipped pass: the found subscription is the one healthy entry of its type.\<close>

lemma skipped_pass_on_registry:
  assumes "find (\<lambda>sub. sub_type sub = type_name T') subs = Some e"
    and "healthy (sub_status e)"
    and "no_healthy_behind_first subs T'"
    and "of_type T' reg = of_type T' subs"
  shows "count_healthy T' reg = 1"
proof -
  from of_type_first [OF assms(1,3)] obtain ys
    where "of_type T' subs = e # ys" "filter (\<lambda>x. healthy (sub_status x)) ys = []" by blast
  with assms(2,4) show ?thesis by (simp add: count_healthy_of_type)
qed

text \<open>
  A pass that is not skipped, seen on the registry. Every entry of the registry is a
  listed subscription or has an id that is not listed. After the pass this holds
  again and the other types are untouched; when the entries of the type of the pass
  were still the listed ones, with no healthy one behind the first, the type has
  exactly one healthy entry.
\<close>

lemma pass_on_registry:
  assumes ids: "distinct (map sub_id subs)"
    and inv: "\<forall>x\<in>set reg. x \<in> set subs \<or> sub_id x \<notin> sub_id ` set subs"
    and ty: "sub_type s = type_name T'" and he: "healthy (sub_status s)"
    and fresh: "sub_id s \<notin> sub_id ` set subs"
    and nf: "\<not> found_healthy subs T'"
    and reg': "reg' = (case find (\<lambda>sub. sub_type sub = type_name T') subs of
                    None \<Rightarrow> reg @ [s]
                  | Some e \<Rightarrow> filter (\<lambda>x. sub_id x \<noteq> sub_id e) reg @ [s])"
  shows "\<forall>x\<in>set reg'. x \<in> set subs \<or> sub_id x \<notin> sub_id ` set subs"
    and "\<forall>T. T \<noteq> T' \<longrightarrow> of_type T reg' = of_type T reg"
    and "no_healthy_behind_first subs T' \<longrightarrow> of_type T' reg = of_type T' subs
           \<longrightarrow> count_healthy T' reg' = 1"
proof -
  have s_other: "of_type T [s] = []" if "T \<noteq> T'" for T
    using that ty type_name_inj by (auto simp: of_type_def)
  have s_self: "of_type T' [s] = [s]"
    using ty by (simp add: of_type_def)
  show "\<forall>x\<in>set reg'. x \<in> set subs \<or> sub_id x \<notin> sub_id ` set subs"
    using inv fresh by (auto simp: reg' split: option.splits)
  show "\<forall>T. T \<noteq> T' \<longrightarrow> of_type T reg' = of_type T reg"
  proof (intro allI impI)
    fix T assume neq: "T \<noteq> T'"
    show "of_type T reg' = of_type T reg"
    proof (cases "find (\<lambda>sub. sub_type sub = type_name T') subs")
      case None
      then show ?thesis by (simp add: reg' of_type_append s_other [OF neq])
    next
      case (Some e)
      have e: "e \<in> set subs" "sub_type e = type_name T'"
        using find_type_member [OF Some] by simp_all
      have "of_type T (filter (\<lambda>x. sub_id x \<noteq> sub_id e) reg) = of_type T reg"
      proof -
        have "sub_id x \<noteq> sub_id e" if "x \<in> set reg" "sub_type x = type_name T" for x
        proof
          assume same: "sub_id x = sub_id e"
          with e(1) have "sub_id x \<in> sub_id ` set subs" by force
          with inv that(1) have "x \<in> set subs" by blast
          with same e(1) have "x = e" using distinct_ids_eq [OF ids] by blast
          with that(2) e(2) neq show False using type_name_inj by auto
        qed
        then show ?thesis
          unfolding of_type_def filter_filter by (intro filter_cong) auto
      qed
      with Some show ?thesis by (simp add: reg' of_type_append s_other [OF neq])
    qed
  qed
  show "no_healthy_behind_first subs T' \<longrightarrow> of_type T' reg = of_type T' subs
          \<longrightarrow> count_healthy T' reg' = 1"
  proof (intro impI)
    assume nh: "no_healthy_behind_first subs T'" and unt: "of_type T' reg = of_type T' subs"
    show "count_healthy T' reg' = 1"
    proof (cases "find (\<lambda>sub. sub_type sub = type_name T') subs")
      case None
      with unt have "of_type T' reg' = [s]"
        by (simp add: reg' of_type_append s_self of_type_none)
      with he show ?thesis by (simp add: count_healthy_of_type)
    next
      case (Some e)
      with nf have unhealthy: "\<not> healthy (sub_status e)"
        by (simp add: found_healthy_def)
      from of_type_first [OF Some nh] obtain ys
        where ys: "of_type T' subs = e # ys" "filter (\<lambda>x. healthy (sub_status x)) ys = []"
        by blast
      have "of_type T' (filter (\<lambda>x. sub_id x \<noteq> sub_id e) reg)
              = filter (\<lambda>x. sub_id x \<noteq> sub_id e) (of_type T' reg)"
        unfolding of_type_def filter_filter by (intro filter_cong) auto
      with unt ys(1) have "of_type T' reg' = filter (\<lambda>x. sub_id x \<noteq> sub_id e) ys @ [s]"
        using Some by (simp add: reg' of_type_append s_self)
      moreover have "filter (\<lambda>x. healthy (sub_status x)) (filter (\<lambda>x. sub_id x \<noteq> sub_id e) ys) = []"
        using ys(2) by (auto simp: filter_empty_conv)
      ultimately show ?thesis using he by (simp add: count_healthy_of_type)
    qed
  qed
qed

text \<open>The loop over any part of the list of desired types, seen on the registry.\<close>

lemma loop_on_registry:
  assumes ids: "distinct (map sub_id subs)"
    and ok: "list_all (request_succeeds w subs)
               (requests (fst (for_of (iteration this w token subs) ets)))"
    and dist: "distinct (map fst ets)"
    and inv: "\<forall>x\<in>set reg. x \<in> set subs \<or> sub_id x \<notin> sub_id ` set subs"
    and unt: "\<forall>et\<in>set ets. of_type (fst et) reg = of_type (fst et) subs"
  shows "snd (for_of (iteration this w token subs) ets) = Inr ()
       \<and> (\<forall>x\<in>set (foldl (registry_after w) reg (fst (for_of (iteration this w token subs) ets))).
             x \<in> set subs \<or> sub_id x \<notin> sub_id ` set subs)
       \<and> (\<forall>T. T \<notin> fst ` set ets \<longrightarrow>
             of_type T (foldl (registry_after w) reg (fst (for_of (iteration this w token subs) ets)))
               = of_type T reg)
       \<and> (\<forall>et\<in>set ets. no_healthy_behind_first subs (fst et) \<longrightarrow>
             count_healthy (fst et)
               (foldl (registry_after w) reg (fst (for_of (iteration this w token subs) ets))) = 1)"
  using ok dist inv unt
proof (induction ets arbitrary: reg)
  case Nil
  then show ?case by simp
next
  case (Cons et ets)
  let ?body = "iteration this w token subs"
  obtain T' c' where et: "et = (T', c')" by (cases et)
  obtain t where "fst (for_of ?body (et # ets)) = fst (?body (T', c')) @ t"
    using await_then_fst_prefix [of "?body et"] by (auto simp: et)
  with Cons.prems(1) have ok_et: "list_all (request_succeeds w subs) (requests (fst (?body (T', c'))))"
    by (simp add: requests_append)
  note pass_facts = iteration_registry [OF ok_et]
  from pass_facts have fin: "snd (?body (T', c')) = Inr ()" by blast
  have unfold: "for_of ?body (et # ets) = (fst (?body (T', c')) @ fst (for_of ?body ets), snd (for_of ?body ets))"
    by (simp add: et await_then_ok [OF fin])
  from Cons.prems(1) have ok_rest: "list_all (request_succeeds w subs) (requests (fst (for_of ?body ets)))"
    unfolding unfold by (simp add: requests_append)
  define reg1 where "reg1 = foldl (registry_after w) reg (fst (?body (T', c')))"
  have unt': "of_type T' reg = of_type T' subs" using Cons.prems(4) by (simp add: et)
  have pass: "(\<forall>x\<in>set reg1. x \<in> set subs \<or> sub_id x \<notin> sub_id ` set subs)
            \<and> (\<forall>T. T \<noteq> T' \<longrightarrow> of_type T reg1 = of_type T reg)
            \<and> (no_healthy_behind_first subs T' \<longrightarrow> count_healthy T' reg1 = 1)"
  proof (cases "found_healthy subs T'")
    case True
    then obtain e where e: "find (\<lambda>sub. sub_type sub = type_name T') subs = Some e"
        "healthy (sub_status e)"
      by (auto simp: found_healthy_def split: option.splits)
    then have "reg1 = reg" by (simp add: reg1_def iteration_healthy)
    with Cons.prems(3) skipped_pass_on_registry [OF e _ unt'] show ?thesis by simp
  next
    case False
    with pass_facts obtain s where ty: "sub_type s = type_name T'" and he: "healthy (sub_status s)"
      and fresh: "sub_id s \<notin> sub_id ` set subs"
      and step: "\<And>r. foldl (registry_after w) r (fst (?body (T', c'))) =
                   (case find (\<lambda>sub. sub_type sub = type_name T') subs of
                      None \<Rightarrow> r @ [s]
                    | Some e \<Rightarrow> filter (\<lambda>x. sub_id x \<noteq> sub_id e) r @ [s])"
      by blast
    have reg1: "reg1 = (case find (\<lambda>sub. sub_type sub = type_name T') subs of
                      None \<Rightarrow> reg @ [s]
                    | Some e \<Rightarrow> filter (\<lambda>x. sub_id x \<noteq> sub_id e) reg @ [s])"
      unfolding reg1_def by (rule step)
    from pass_on_registry [OF ids Cons.prems(3) ty he fresh False reg1] unt'
    show ?thesis by blast
  qed
  have T'_notin: "T' \<notin> fst ` set ets" using Cons.prems(2) by (simp add: et)
  have unt1: "\<forall>et\<in>set ets. of_type (fst et) reg1 = of_type (fst et) subs"
  proof
    fix x assume x: "x \<in> set ets"
    with T'_notin have "fst x \<noteq> T'" by force
    with pass have "of_type (fst x) reg1 = of_type (fst x) reg" by blast
    with Cons.prems(4) x show "of_type (fst x) reg1 = of_type (fst x) subs" by simp
  qed
  have inv1: "\<forall>x\<in>set reg1. x \<in> set subs \<or> sub_id x \<notin> sub_id ` set subs"
    using pass by blast
  have IH: "snd (for_of ?body ets) = Inr ()
       \<and> (\<forall>x\<in>set (foldl (registry_after w) reg1 (fst (for_of ?body ets))).
             x \<in> set subs \<or> sub_id x \<notin> sub_id ` set subs)
       \<and> (\<forall>T. T \<notin> fst ` set ets \<longrightarrow>
             of_type T (foldl (registry_after w) reg1 (fst (for_of ?body ets))) = of_type T reg1)
       \<and> (\<forall>et\<in>set ets. no_healthy_behind_first subs (fst et) \<longrightarrow>
             count_healthy (fst et) (foldl (registry_after w) reg1 (fst (for_of ?body ets))) = 1)"
    using Cons.prems(2) by (intro Cons.IH [OF ok_rest _ inv1 unt1]) simp
  have final: "foldl (registry_after w) reg (fst (for_of ?body (et # ets)))
                 = foldl (registry_after w) reg1 (fst (for_of ?body ets))"
    unfolding unfold reg1_def by simp
  have a: "snd (for_of ?body (et # ets)) = Inr ()"
    unfolding unfold using IH by simp
  have b: "\<forall>T. T \<notin> fst ` set (et # ets) \<longrightarrow>
             of_type T (foldl (registry_after w) reg (fst (for_of ?body (et # ets)))) = of_type T reg"
  proof (intro allI impI)
    fix T assume "T \<notin> fst ` set (et # ets)"
    then have "T \<noteq> T'" and "T \<notin> fst ` set ets" by (auto simp: et)
    with IH pass show "of_type T (foldl (registry_after w) reg (fst (for_of ?body (et # ets)))) = of_type T reg"
      unfolding final by simp
  qed
  have c: "count_healthy (fst x) (foldl (registry_after w) reg (fst (for_of ?body (et # ets)))) = 1"
    if "x \<in> set (et # ets)" "no_healthy_behind_first subs (fst x)" for x
  proof (cases "x = et")
    case True
    from IH T'_notin have "of_type T' (foldl (registry_after w) reg1 (fst (for_of ?body ets))) = of_type T' reg1"
      by blast
    then have "count_healthy T' (foldl (registry_after w) reg1 (fst (for_of ?body ets)))
                 = count_healthy T' reg1"
      by (simp add: count_healthy_of_type)
    with pass that(2) True show ?thesis unfolding final by (simp add: et)
  next
    case False
    with that(1) have "x \<in> set ets" by simp
    with IH that(2) show ?thesis unfolding final by simp
  qed
  have d: "\<forall>x\<in>set (foldl (registry_after w) reg (fst (for_of ?body (et # ets)))).
             x \<in> set subs \<or> sub_id x \<notin> sub_id ` set subs"
    unfolding final using IH by blast
  from a b c d show ?case by blast
qed

lemma distinct_eventTypes_fst: "distinct (map fst (eventTypes uid))"
  by (simp add: eventTypes_def)

text \<open>
  C1, as the code has it. Let \<open>T\<close> be a desired type. Start from any registry with
  unique ids, which the listing returns, in which no healthy subscription of type \<open>T\<close>
  is listed behind the first subscription of type \<open>T\<close>, and let the service accept
  every delete and every create that the run issues (a create entering one healthy
  subscription of its type under an id that is not listed). Then the run ends normally
  and the registry afterwards contains exactly one subscription with type \<open>T\<close> and a
  healthy status.
\<close>

theorem reconciled_registry_has_one_healthy_per_type:
  assumes "getToken_result w = Inr token"
    and "listSubscriptions_result w token (clientId this) = Inr (Some reg)"
    and "distinct (map sub_id reg)"
    and "(T, c) \<in> set (eventTypes (userId this))"
    and "no_healthy_behind_first reg T"
    and "list_all (request_succeeds w reg) (requests (fst (setupEventSub this w)))"
  shows "snd (setupEventSub this w) = Inr ()
       \<and> count_healthy T (final_registry this w reg) = 1"
proof -
  let ?ets = "eventTypes (userId this)"
  have run: "setupEventSub this w = for_of (iteration this w token reg) ?ets"
    by (rule setupEventSub_loop [OF assms(1,2)])
  have ok: "list_all (request_succeeds w reg) (requests (fst (for_of (iteration this w token reg) ?ets)))"
    using assms(6) by (simp add: run)
  have inv: "\<forall>x\<in>set reg. x \<in> set reg \<or> sub_id x \<notin> sub_id ` set reg" by simp
  have unt: "\<forall>et\<in>set ?ets. of_type (fst et) reg = of_type (fst et) reg" by simp
  note loop = loop_on_registry [OF assms(3) ok distinct_eventTypes_fst inv unt]
  from loop assms(4,5) have "count_healthy T (final_registry this w reg) = 1"
    unfolding final_registry_def run by fastforce
  with loop show ?thesis by (simp add: run)
qed

theorem reconciled_registry_has_one_healthy_per_type_witness:
  "count_healthy Channel_follow
     (final_registry demo_controller
        (demo_world [mk_sub ''old'' Authorization_revoked Channel_follow,
                     mk_sub ''older'' User_removed Channel_follow,
                     mk_sub ''s7'' Enabled Channel_raid])
        [mk_sub ''old'' Authorization_revoked Channel_follow,
         mk_sub ''older'' User_removed Channel_follow,
         mk_sub ''s7'' Enabled Channel_raid]) = 1
   \<and> final_registry demo_controller
        (demo_world [mk_sub ''old'' Authorization_revoked Channel_follow,
                     mk_sub ''older'' User_removed Channel_follow,
                     mk_sub ''s7'' Enabled Channel_raid])
        [mk_sub ''old'' Authorization_revoked Channel_follow,
         mk_sub ''older'' User_removed Channel_follow,
         mk_sub ''s7'' Enabled Channel_raid]
      = [mk_sub ''older'' User_removed Channel_follow,
         mk_sub ''s7'' Enabled Channel_raid,
         mk_sub ''new-channel.follow'' Webhook_callback_verification_pending Channel_follow,
         mk_sub ''new-channel.subscribe'' Webhook_callback_verification_pending Channel_subscribe,
         mk_sub ''new-channel.channel_points_custom_reward_redemption.add''
           Webhook_callback_verification_pending Channel_channel_points_custom_reward_redemption_add,
         mk_sub ''new-channel.update'' Webhook_callback_verification_pending Channel_update,
         mk_sub ''new-channel.cheer'' Webhook_callback_verification_pending Channel_cheer,
         mk_sub ''new-channel.subscription.gift'' Webhook_callback_verification_pending
           Channel_subscription_gift]"
proof -
  let ?reg = "[mk_sub ''old'' Authorization_revoked Channel_follow,
               mk_sub ''older'' User_removed Channel_follow,
               mk_sub ''s7'' Enabled Channel_raid]"
  have 1: "getToken_result (demo_world ?reg) = Inr ''token''"
    by (simp add: demo_world_def)
  have 2: "listSubscriptions_result (demo_world ?reg) ''token'' (clientId demo_controller) = Inr (Some ?reg)"
    by (simp add: demo_world_def)
  have 3: "distinct (map sub_id ?reg)"
    by (simp add: mk_sub_def)
  have 4: "(Channel_follow, None) \<in> set (eventTypes (userId demo_controller))"
    by (simp add: eventTypes_def)
  have 5: "no_healthy_behind_first ?reg Channel_follow"
    by (simp add: no_healthy_behind_first_def of_type_def mk_sub_def healthy_def)
  have 6: "list_all (request_succeeds (demo_world ?reg) ?reg)
             (requests (fst (setupEventSub demo_controller (demo_world ?reg))))"
    by (simp add: eventTypes_def mk_sub_def healthy_def accepted_def
        demo_controller_def demo_world_def setupEventSub_def iteration_def await_then_def
        deleteSubscription_def createSubscription_def Let_def)
  have "final_registry demo_controller (demo_world ?reg) ?reg
      = [mk_sub ''older'' User_removed Channel_follow,
         mk_sub ''s7'' Enabled Channel_raid,
         mk_sub ''new-channel.follow'' Webhook_callback_verification_pending Channel_follow,
         mk_sub ''new-channel.subscribe'' Webhook_callback_verification_pending Channel_subscribe,
         mk_sub ''new-channel.channel_points_custom_reward_redemption.add''
           Webhook_callback_verification_pending Channel_channel_points_custom_reward_redemption_add,
         mk_sub ''new-channel.update'' Webhook_callback_verification_pending Channel_update,
         mk_sub ''new-channel.cheer'' Webhook_callback_verification_pending Channel_cheer,
         mk_sub ''new-channel.subscription.gift'' Webhook_callback_verification_pending
           Channel_subscription_gift]"
    by (simp add: final_registry_def eventTypes_def mk_sub_def healthy_def accepted_def
        demo_controller_def demo_world_def setupEventSub_def iteration_def await_then_def
        deleteSubscription_def createSubscription_def Let_def)
  with reconciled_registry_has_one_healthy_per_type [OF 1 2 3 4 5 6]
  show ?thesis by simp
qed

text \<open>
  The claim C1 as it is worded starts from any registry. In the one below two enabled
  subscriptions for \<^verbatim>\<open>channel.follow\<close> are listed, with different ids, and every other
  desired type has one healthy subscription: the run issues no request, the registry
  stays as it is, and it holds two healthy subscriptions of type \<^verbatim>\<open>channel.follow\<close>.
\<close>

theorem duplicate_healthy_subscriptions_stay:
  "setupEventSub demo_controller
     (demo_world (listing_with [mk_sub ''s1'' Enabled Channel_follow,
                                mk_sub ''s1b'' Enabled Channel_follow])) = ([], Inr ())
   \<and> count_healthy Channel_follow
       (final_registry demo_controller
          (demo_world (listing_with [mk_sub ''s1'' Enabled Channel_follow,
                                     mk_sub ''s1b'' Enabled Channel_follow]))
          (listing_with [mk_sub ''s1'' Enabled Channel_follow,
                         mk_sub ''s1b'' Enabled Channel_follow])) = 2"
  by (simp add: count_healthy_def healthy_of_type_def final_registry_def
        eventTypes_def listing_with_def six_healthy_def mk_sub_def healthy_def
        demo_controller_def demo_world_def setupEventSub_def iteration_def await_then_def
        deleteSubscription_def createSubscription_def Let_def)

text \<open>
  The conditions are needed. When the creates fail, which \<^verbatim>\<open>createSubscription\<close>
  logs and swallows, the types stay absent.
\<close>

lemma failed_creates_leave_the_type_absent:
  "snd (setupEventSub demo_controller (all_rejecting_world [])) = Inr ()
   \<and> count_healthy Channel_follow (final_registry demo_controller (all_rejecting_world []) []) = 0"
  by (simp add: count_healthy_def healthy_of_type_def final_registry_def
        eventTypes_def demo_controller_def all_rejecting_world_def demo_world_def
        setupEventSub_def iteration_def await_then_def createSubscription_def Let_def)

text \<open>
  With a healthy subscription listed behind a revoked one of its type, the revoked one
  is replaced and two healthy ones result.
\<close>

lemma healthy_behind_revoked_gives_two:
  "count_healthy Channel_follow
     (final_registry demo_controller
        (demo_world (listing_with [mk_sub ''old'' Authorization_revoked Channel_follow,
                                   mk_sub ''s1'' Enabled Channel_follow]))
        (listing_with [mk_sub ''old'' Authorization_revoked Channel_follow,
                       mk_sub ''s1'' Enabled Channel_follow])) = 2"
  by (simp add: count_healthy_def healthy_of_type_def final_registry_def accepted_def
        eventTypes_def listing_with_def six_healthy_def mk_sub_def healthy_def
        demo_controller_def demo_world_def setupEventSub_def iteration_def await_then_def
        deleteSubscription_def createSubscription_def Let_def)

text \<open>
  With one id shared by a revoked \<^verbatim>\<open>channel.follow\<close> and the enabled
  \<^verbatim>\<open>channel.subscribe\<close>, the delete of the first removes both, and the pass for
  \<^verbatim>\<open>channel.subscribe\<close> is skipped on the listing taken before: no healthy
  \<^verbatim>\<open>channel.subscribe\<close> is left.
\<close>

lemma shared_id_loses_the_healthy_one:
  "count_healthy Channel_subscribe
     (final_registry demo_controller
        (demo_world (listing_with [mk_sub ''s2'' Authorization_revoked Channel_follow]))
        (listing_with [mk_sub ''s2'' Authorization_revoked Channel_follow])) = 0"
  by (simp add: count_healthy_def healthy_of_type_def final_registry_def accepted_def
        eventTypes_def listing_with_def six_healthy_def mk_sub_def healthy_def
        demo_controller_def demo_world_def setupEventSub_def iteration_def await_then_def
        deleteSubscription_def createSubscription_def Let_def)

section \<open>What a redemption does\<close>

text \<open>
  C5. When the lookup finds no reward for the id of the payload, \<^verbatim>\<open>redeem\<close> (and
  \<^verbatim>\<open>handleEvent\<close> through it) performs no effect: none of the three actions, no scene
  switch.
\<close>

theorem unknown_reward_is_ignored:
  assumes "getReward w (redemption_reward_id payload) = None"
  shows "redeem w payload = ([], Inr ())
       \<and> handleEvent w (ChannelRedemptionEvent payload) = ([], Inr ())"
  using assms by (simp add: redeem_def await_then_def)

theorem unknown_reward_is_ignored_witness:
  "getReward (demo_world []) (redemption_reward_id (demo_redemption ''nope'')) = None
   \<and> redeem (demo_world []) (demo_redemption ''nope'') = ([], Inr ())
   \<and> handleEvent (demo_world []) (ChannelRedemptionEvent (demo_redemption ''nope'')) = ([], Inr ())"
proof -
  have h: "getReward (demo_world []) (redemption_reward_id (demo_redemption ''nope'')) = None"
    by (simp add: demo_world_def demo_redemption_def demo_getReward_def)
  from unknown_reward_is_ignored [OF h] h show ?thesis by simp
qed

text \<open>
  C6, as the code has it. For a redemption whose reward is a giveaway entry with a
  scene that is not the empty string, and a call of \<^verbatim>\<open>giveaways.handleNewEntry\<close> that
  does not throw, the effects of \<^verbatim>\<open>redeem\<close> are exactly two: the giveaway entry with
  the redeemer's \<^verbatim>\<open>user_name\<close>, then the switch to the scene.
\<close>

theorem giveaway_entry_then_scene_switch:
  assumes "getReward w (redemption_reward_id payload) = Some r"
    and "reward_type r = Giveaway_entry"
    and "reward_scene r = Some scene"
    and "scene \<noteq> []"
    and "handleNewEntry_outcome w (redemption_user_name payload) \<noteq> Throws"
  shows "fst (redeem w payload) =
           [HandleNewEntry (redemption_user_name payload), SwitchScene scene]"
  using assms
  by (cases "handleNewEntry_outcome w (redemption_user_name payload)";
      cases "switchScene_outcome w scene")
     (simp_all add: redeem_def redeemGiveawayEntry_def await_then_def)

theorem giveaway_entry_then_scene_switch_witness:
  "fst (redeem (demo_world []) (demo_redemption ''r-give'')) =
     [HandleNewEntry ''Alice'', SwitchScene ''cam'']"
proof -
  let ?r = "\<lparr>reward_id = ''r-give'', reward_type = Giveaway_entry, reward_scene = Some ''cam'',
             reward_script = None, reward_key = None\<rparr>"
  have 1: "getReward (demo_world []) (redemption_reward_id (demo_redemption ''r-give'')) = Some ?r"
    by (simp add: demo_world_def demo_redemption_def demo_getReward_def)
  have 5: "handleNewEntry_outcome (demo_world []) (redemption_user_name (demo_redemption ''r-give'')) \<noteq> Throws"
    by (simp add: demo_world_def)
  from giveaway_entry_then_scene_switch [OF 1 _ _ _ 5, of "''cam''"]
  show ?thesis by (simp add: demo_redemption_def)
qed

text \<open>
  The claim C6 as it is worded covers every declared scene. The reward below declares
  the empty string as its scene: the test \<^verbatim>\<open>reward?.scene\<close> of line 314 is false for
  it, and after the giveaway entry no scene switch is requested.
\<close>

theorem empty_scene_is_not_switched_to:
  "getReward (demo_world []) (redemption_reward_id (demo_redemption ''r-blank'')) =
     Some \<lparr>reward_id = ''r-blank'', reward_type = Giveaway_entry, reward_scene = Some '''',
           reward_script = None, reward_key = None\<rparr>
   \<and> redeem (demo_world []) (demo_redemption ''r-blank'') = ([HandleNewEntry ''Alice''], Inr ())"
  by (simp add: demo_world_def demo_redemption_def demo_getReward_def
        redeem_def redeemGiveawayEntry_def await_then_def)

text \<open>The entry is handed over exactly once whatever the collaborator does, and a scene switch never comes before it.\<close>

lemma giveaway_entry_handed_over_once:
  assumes "getReward w (redemption_reward_id payload) = Some r"
    and "reward_type r = Giveaway_entry"
  shows "\<exists>rest. fst (redeem w payload) = HandleNewEntry (redemption_user_name payload) # rest
           \<and> (rest = [] \<or> (\<exists>scene. rest = [SwitchScene scene]))"
  using assms
  by (cases "handleNewEntry_outcome w (redemption_user_name payload)")
     (simp_all add: redeem_def redeemGiveawayEntry_def await_then_def
        split: option.splits outcome.splits)

text \<open>The two actions with a try block never reject.\<close>

lemma redeemShell_fulfils: "snd (redeemShell w r) = Inr ()"
  by (simp add: redeemShell_def split: option.splits outcome.splits)

lemma redeemSnapFilter_fulfils: "snd (redeemSnapFilter w r) = Inr ()"
  by (simp add: redeemSnapFilter_def split: option.splits outcome.splits)

text \<open>With them, \<^verbatim>\<open>redeem\<close> can reject only through the scene switch.\<close>

lemma shell_and_snap_errors_stay_inside:
  assumes "getReward w (redemption_reward_id payload) = Some r"
    and "reward_type r \<noteq> Giveaway_entry"
    and "list_all (\<lambda>s. switchScene_outcome w s = Fulfils) (case reward_scene r of None \<Rightarrow> [] | Some s \<Rightarrow> [s])"
  shows "snd (redeem w payload) = Inr ()"
proof (cases "reward_type r")
  case Shell
  with assms(1,3) show ?thesis
    by (simp add: redeem_def await_then_ok [OF redeemShell_fulfils] split: option.splits)
next
  case Snap_filter
  with assms(1,3) show ?thesis
    by (simp add: redeem_def await_then_ok [OF redeemSnapFilter_fulfils] split: option.splits)
next
  case Giveaway_entry
  with assms(2) show ?thesis by simp
qed

lemma failed_shell_is_logged:
  "handleEvent throwing_world (ChannelRedemptionEvent (demo_redemption ''r-shell''))
     = ([Open ''./party.sh'', ConsoleError CollaboratorError], Inr ())"
  by (simp add: throwing_world_def demo_world_def demo_redemption_def demo_getReward_def
        redeem_def redeemShell_def await_then_def)

lemma failed_snap_filter_is_logged:
  "handleEvent throwing_world (ChannelRedemptionEvent (demo_redemption ''r-snap''))
     = ([ToggleSnapFilter ''k'', ConsoleError CollaboratorError, SwitchScene ''cam''], Inr ())"
  by (simp add: throwing_world_def demo_world_def demo_redemption_def demo_getReward_def
        redeem_def redeemSnapFilter_def await_then_def)

text \<open>
  C7 on the code. The reward is a giveaway entry and \<^verbatim>\<open>giveaways.handleNewEntry\<close>
  throws. \<^verbatim>\<open>redeemGiveawayEntry\<close> has no try block: nothing is logged, the scene switch
  of the reward is skipped, and the promises of \<^verbatim>\<open>redeem\<close> and \<^verbatim>\<open>handleEvent\<close> reject
  with the error.
\<close>

theorem failed_giveaway_entry_propagates:
  "redeem throwing_world (demo_redemption ''r-give'')
     = ([HandleNewEntry ''Alice''], Inl CollaboratorError)
   \<and> handleEvent throwing_world (ChannelRedemptionEvent (demo_redemption ''r-give''))
     = ([HandleNewEntry ''Alice''], Inl CollaboratorError)"
  by (simp add: throwing_world_def demo_world_def demo_redemption_def demo_getReward_def
        redeem_def redeemGiveawayEntry_def await_then_def)

section \<open>What a chat message does\<close>

text \<open>
  C8. For every incoming chat message, winner selection is triggered if and only if
  the text starts with \<^verbatim>\<open>!winner\<close> and the sender is the configured user name; the
  same message from any other user triggers nothing.
\<close>

theorem winner_iff_command_from_owner:
  "SelectWinner \<in> set (fst (onMessage this w chan usr msg b m))
     \<longleftrightarrow> prefix ''!winner'' msg \<and> usr = username this"
  by (cases "selectWinner_outcome w";
      cases "wsEmit_outcome w \<lparr>chat_channel = chan, chat_user = usr, chat_message = msg,
                                 chat_broadcaster = b, chat_moderator = m\<rparr>")
     (simp_all add: onMessage_def await_then_def Let_def)

theorem winner_iff_command_from_owner_witness:
  "SelectWinner \<in> set (fst (onMessage demo_controller (demo_world []) ''#owner'' ''owner'' ''!winner please'' True False))
   \<and> SelectWinner \<notin> set (fst (onMessage demo_controller (demo_world []) ''#owner'' ''alice'' ''!winner please'' False False))
   \<and> SelectWinner \<notin> set (fst (onMessage demo_controller (demo_world []) ''#owner'' ''owner'' ''the !winner'' True False))"
  using winner_iff_command_from_owner [of demo_controller "demo_world []" "''#owner''" "''owner''" "''!winner please''" True False]
    winner_iff_command_from_owner [of demo_controller "demo_world []" "''#owner''" "''alice''" "''!winner please''" False False]
    winner_iff_command_from_owner [of demo_controller "demo_world []" "''#owner''" "''owner''" "''the !winner''" True False]
  by (simp add: demo_controller_def)

text \<open>
  Unless the message is a \<^verbatim>\<open>!winner\<close> of the owner on which \<^verbatim>\<open>giveaways.selectWinner\<close>
  throws, the chat event is emitted, once, as the last effect of the handler, and it is
  the only effect besides the winner selection.
\<close>

lemma chat_event_emitted_unless_selectWinner_throws:
  assumes "\<not> (prefix ''!winner'' msg \<and> usr = username this \<and> selectWinner_outcome w = Throws)"
  shows "filter (\<lambda>e. e \<noteq> SelectWinner) (fst (onMessage this w chan usr msg b m)) =
     [WsEmit ''twitch-chat-event''
        \<lparr>chat_channel = chan, chat_user = usr, chat_message = msg,
         chat_broadcaster = b, chat_moderator = m\<rparr>]
   \<and> last (fst (onMessage this w chan usr msg b m)) =
       WsEmit ''twitch-chat-event''
         \<lparr>chat_channel = chan, chat_user = usr, chat_message = msg,
          chat_broadcaster = b, chat_moderator = m\<rparr>"
  using assms
  by (cases "selectWinner_outcome w";
      cases "wsEmit_outcome w \<lparr>chat_channel = chan, chat_user = usr, chat_message = msg,
                                 chat_broadcaster = b, chat_moderator = m\<rparr>")
     (simp_all add: onMessage_def await_then_def Let_def)

lemma owner_winner_message_is_forwarded:
  "onMessage demo_controller (demo_world []) ''#owner'' ''owner'' ''!winner'' True False =
     ([SelectWinner,
       WsEmit ''twitch-chat-event''
         \<lparr>chat_channel = ''#owner'', chat_user = ''owner'', chat_message = ''!winner'',
          chat_broadcaster = True, chat_moderator = False\<rparr>], Inr ())"
  by (simp add: onMessage_def await_then_def Let_def demo_controller_def demo_world_def)

text \<open>
  C10 on the code. The owner sends \<^verbatim>\<open>!winner\<close> and \<^verbatim>\<open>giveaways.selectWinner\<close> throws.
  The call of line 272 is outside any try: the exception rejects the handler before
  line 275, and the chat event is not emitted.
\<close>

theorem throwing_selectWinner_suppresses_chat_event:
  "onMessage demo_controller selectWinner_throwing_world ''#owner'' ''owner'' ''!winner'' True False
     = ([SelectWinner], Inl CollaboratorError)"
  by (simp add: onMessage_def await_then_def Let_def demo_controller_def demo_world_def
        selectWinner_throwing_world_def)

end
